theory Spec2Isabelle
  imports Complex_Main
begin

section \<open>Pitch-class resolver (Piano.tsx and PianoToken.tsx, identical in both)\<close>

text \<open>
  Strings are lists of 8-bit characters. \<open>toUpperCase\<close> is modelled on the ASCII letters;
  every other character is left alone. JavaScript's Unicode upper-casing sends no
  non-ASCII character to a string that is a key of the table below, so the lookup result
  is the same.
\<close>

definition toUpperChar :: "char \<Rightarrow> char" where
  "toUpperChar c =
     (case map_of (zip ''abcdefghijklmnopqrstuvwxyz'' ''ABCDEFGHIJKLMNOPQRSTUVWXYZ'') c of
        Some u \<Rightarrow> u
      | None \<Rightarrow> c)"

definition toUpperCase :: "string \<Rightarrow> string" where
  "toUpperCase s = map toUpperChar s"

definition isDigit :: "char \<Rightarrow> bool" where
  "isDigit c = (c \<in> set ''0123456789'')"

text \<open>\<open>s.replace(/[0-9]/g, '')\<close>: every digit is removed, wherever it stands.\<close>

definition stripDigits :: "string \<Rightarrow> string" where
  "stripDigits s = filter (\<lambda>c. \<not> isDigit c) s"

definition NOTE_TO_OFFSET :: "(string \<times> int) list" where
  "NOTE_TO_OFFSET =
     [(''C'', 0), (''B#'', 0),
      (''C#'', 1), (''DB'', 1),
      (''D'', 2),
      (''D#'', 3), (''EB'', 3),
      (''E'', 4), (''FB'', 4),
      (''F'', 5), (''E#'', 5),
      (''F#'', 6), (''GB'', 6),
      (''G'', 7),
      (''G#'', 8), (''AB'', 8),
      (''A'', 9),
      (''A#'', 10), (''BB'', 10),
      (''B'', 11), (''CB'', 11)]"

text \<open>\<open>NOTE_TO_OFFSET[n] ?? -1\<close>: a missing key reads \<open>undefined\<close>, replaced by \<open>-1\<close>.\<close>

definition noteToOffset :: "string \<Rightarrow> int" where
  "noteToOffset note =
     (let n = stripDigits (toUpperCase note)
      in case map_of NOTE_TO_OFFSET n of Some v \<Rightarrow> v | None \<Rightarrow> - 1)"

text \<open>
  The active set of both components:
  \<open>activeNotes.forEach(n => { const offset = noteToOffset(n); if (offset !== -1) s.add(offset); })\<close>.
\<close>

fun activeLoop :: "int set \<Rightarrow> string list \<Rightarrow> int set" where
  "activeLoop s [] = s"
| "activeLoop s (n # ns) =
     (let offset = noteToOffset n
      in activeLoop (if offset \<noteq> - 1 then insert offset s else s) ns)"

definition activeIndices :: "string list \<Rightarrow> int set" where
  "activeIndices activeNotes = activeLoop {} activeNotes"

text \<open>
  \<open>rootNote ? noteToOffset(rootNote) : -1\<close>; an absent prop and the empty string are
  both falsy.
\<close>

definition rootIndex :: "string option \<Rightarrow> int" where
  "rootIndex rootNote =
     (case rootNote of
        None \<Rightarrow> - 1
      | Some r \<Rightarrow> if r = [] then - 1 else noteToOffset r)"

subsection \<open>Spellings, as the specification describes them\<close>

text \<open>
  A note name is a letter A to G, an optional accidental and an optional octave number.
  Its pitch class is the letter's position in the C major scale, raised by a sharp and
  lowered by a flat, modulo 12. These definitions follow the specification's words and
  are compared with the table of the source.
\<close>

datatype letter = LC | LD | LE | LF | LG | LA | LB

datatype accidental = Natural | Sharp | Flat

fun letterChar :: "letter \<Rightarrow> char" where
  "letterChar LC = CHR ''C''"
| "letterChar LD = CHR ''D''"
| "letterChar LE = CHR ''E''"
| "letterChar LF = CHR ''F''"
| "letterChar LG = CHR ''G''"
| "letterChar LA = CHR ''A''"
| "letterChar LB = CHR ''B''"

fun letterCharLower :: "letter \<Rightarrow> char" where
  "letterCharLower LC = CHR ''c''"
| "letterCharLower LD = CHR ''d''"
| "letterCharLower LE = CHR ''e''"
| "letterCharLower LF = CHR ''f''"
| "letterCharLower LG = CHR ''g''"
| "letterCharLower LA = CHR ''a''"
| "letterCharLower LB = CHR ''b''"

fun accidentalText :: "accidental \<Rightarrow> string" where
  "accidentalText Natural = []"
| "accidentalText Sharp = ''#''"
| "accidentalText Flat = ''b''"

definition spelling :: "bool \<Rightarrow> letter \<Rightarrow> accidental \<Rightarrow> string \<Rightarrow> string" where
  "spelling lower l a octave =
     (if lower then letterCharLower l else letterChar l) # accidentalText a @ octave"

fun letterSemitone :: "letter \<Rightarrow> int" where
  "letterSemitone LC = 0"
| "letterSemitone LD = 2"
| "letterSemitone LE = 4"
| "letterSemitone LF = 5"
| "letterSemitone LG = 7"
| "letterSemitone LA = 9"
| "letterSemitone LB = 11"

fun accidentalShift :: "accidental \<Rightarrow> int" where
  "accidentalShift Natural = 0"
| "accidentalShift Sharp = 1"
| "accidentalShift Flat = - 1"

definition spellingPitchClass :: "letter \<Rightarrow> accidental \<Rightarrow> int" where
  "spellingPitchClass l a = (letterSemitone l + accidentalShift a) mod 12"

text \<open>A string is recognised when its normal form is a key of the table.\<close>

definition recognized :: "string \<Rightarrow> bool" where
  "recognized note = (stripDigits (toUpperCase note) \<in> fst ` set NOTE_TO_OFFSET)"

section \<open>Keyboard geometry shared by both components\<close>

text \<open>
  Coordinates are integers: the two halved widths of the source, \<open>whiteKeyWidth/2\<close> and
  \<open>blackKeyWidth/2\<close>, are halves of the even constants 40 and 24, so the division is exact.
\<close>

definition whiteKeyWidth :: int where "whiteKeyWidth = 40"
definition whiteKeyHeight :: int where "whiteKeyHeight = 160"
definition blackKeyWidth :: int where "blackKeyWidth = 24"
definition blackKeyHeight :: int where "blackKeyHeight = 100"

definition START_OCTAVE :: int where "START_OCTAVE = 3"

definition whiteNotes :: "int list" where
  "whiteNotes = [0, 2, 4, 5, 7, 9, 11]"

text \<open>The pairs \<open>{ idx, pos }\<close> of the source, as \<open>(idx, pos)\<close>.\<close>

definition blackNotes :: "(int \<times> int) list" where
  "blackNotes = [(1, 1), (3, 2), (6, 4), (8, 5), (10, 6)]"

text \<open>
  An element pushed to \<open>generatedKeys\<close>: a \<open>rect\<close> or a \<open>text\<close>. The React key of a
  rectangle, \<open>white-...\<close> or \<open>black-...\<close>, is kept as its kind and the values that follow the
  prefix; the key of a label as the value after \<open>label-\<close>. The attributes that are the
  same constant on every element of a kind (stroke, class name, corner radius, font size)
  are left out.
\<close>

datatype key_kind = White | Black

datatype ('k, 'l) element =
    Rect (rectKind: key_kind) (rectKey: 'k) (rectX: int) (rectY: int)
         (rectWidth: int) (rectHeight: int) (rectFill: string)
  | Text (textKey: 'l) (textX: int) (textY: int) (textContent: string)

fun isRect :: "('k, 'l) element \<Rightarrow> bool" where
  "isRect (Rect _ _ _ _ _ _ _) = True"
| "isRect (Text _ _ _ _) = False"

text \<open>A number inside JSX text is rendered in decimal, with a minus sign when negative.\<close>

definition digitChar :: "nat \<Rightarrow> char" where
  "digitChar d = ''0123456789'' ! d"

fun showNat :: "nat \<Rightarrow> string" where
  "showNat n = (if n < 10 then [digitChar n] else showNat (n div 10) @ [digitChar (n mod 10)])"

declare showNat.simps [simp del]

definition showInt :: "int \<Rightarrow> string" where
  "showInt i = (if i < 0 then CHR ''-'' # showNat (nat (- i)) else showNat (nat i))"

section \<open>Piano.tsx: the plain keyboard\<close>

definition OCTAVES :: nat where "OCTAVES = 2"

type_synonym piano_element = "(nat \<times> int, nat) element"

text \<open>
  The body of \<open>whiteNotes.forEach((noteIndex, i) => ...)\<close>. The chain
  \<open>let fill = 'white'; if (isRoot) ... else if (isActive) ...\<close> is a function of its own
  here; the source writes it inline.
\<close>

definition pianoWhiteFill :: "bool \<Rightarrow> bool \<Rightarrow> string" where
  "pianoWhiteFill isRoot isActive =
     (if isRoot then ''#8b5cf6'' else if isActive then ''#60a5fa'' else ''white'')"

fun pianoWhiteKey :: "int set \<Rightarrow> int \<Rightarrow> nat \<Rightarrow> int \<Rightarrow> nat \<times> int \<Rightarrow> piano_element list" where
  "pianoWhiteKey activeIdx rootIdx oct xOffset (i, noteIndex) =
     (let isActive = noteIndex \<in> activeIdx;
          isRoot = (rootIdx = noteIndex);
          fill = pianoWhiteFill isRoot isActive
      in [Rect White (oct, noteIndex) (xOffset + int i * whiteKeyWidth) 0
            whiteKeyWidth whiteKeyHeight fill]
         @ (if noteIndex = 0
            then [Text oct (xOffset + int i * whiteKeyWidth + whiteKeyWidth div 2)
                    (whiteKeyHeight - 10) (''C'' @ showInt (START_OCTAVE + int oct))]
            else []))"

text \<open>The body of \<open>blackNotes.forEach(({ idx, pos }) => ...)\<close>.\<close>

definition pianoBlackFill :: "bool \<Rightarrow> bool \<Rightarrow> string" where
  "pianoBlackFill isRoot isActive =
     (if isRoot then ''#7c3aed'' else if isActive then ''#3b82f6'' else ''#1e293b'')"

fun pianoBlackKey :: "int set \<Rightarrow> int \<Rightarrow> nat \<Rightarrow> int \<Rightarrow> int \<times> int \<Rightarrow> piano_element list" where
  "pianoBlackKey activeIdx rootIdx oct xOffset (idx, pos) =
     (let isActive = idx \<in> activeIdx;
          isRoot = (rootIdx = idx);
          fill = pianoBlackFill isRoot isActive;
          xPos = xOffset + (pos * whiteKeyWidth) - (blackKeyWidth div 2)
      in [Rect Black (oct, idx) xPos 0 blackKeyWidth blackKeyHeight fill])"

text \<open>One pass of the \<open>for\<close> loop over \<open>oct\<close>.\<close>

definition pianoOctave :: "int set \<Rightarrow> int \<Rightarrow> nat \<Rightarrow> piano_element list" where
  "pianoOctave activeIdx rootIdx oct =
     (let xOffset = int oct * (whiteKeyWidth * 7)
      in concat (map (pianoWhiteKey activeIdx rootIdx oct xOffset) (enumerate 0 whiteNotes))
         @ concat (map (pianoBlackKey activeIdx rootIdx oct xOffset) blackNotes))"

function pianoLoop :: "int set \<Rightarrow> int \<Rightarrow> nat \<Rightarrow> piano_element list \<Rightarrow> piano_element list" where
  "pianoLoop activeIdx rootIdx oct generatedKeys =
     (if oct < OCTAVES
      then pianoLoop activeIdx rootIdx (oct + 1)
             (generatedKeys @ pianoOctave activeIdx rootIdx oct)
      else generatedKeys)"
  by pat_completeness auto
termination
  by (relation "measure (\<lambda>(activeIdx, rootIdx, oct, generatedKeys). OCTAVES - oct)") auto

declare pianoLoop.simps [simp del]

definition pianoKeys :: "string list \<Rightarrow> string option \<Rightarrow> piano_element list" where
  "pianoKeys activeNotes rootNote =
     pianoLoop (activeIndices activeNotes) (rootIndex rootNote) 0 []"

definition pianoTotalWidth :: int where
  "pianoTotalWidth = 7 * whiteKeyWidth * int OCTAVES"

section \<open>PianoToken.tsx: the playable keyboard\<close>

definition DEFAULT_OCTAVES :: nat where "DEFAULT_OCTAVES = 2"
definition MAX_OCTAVES :: nat where "MAX_OCTAVES = 4"

definition octavesOf :: "bool \<Rightarrow> nat" where
  "octavesOf hasAccess = (if hasAccess then MAX_OCTAVES else DEFAULT_OCTAVES)"

definition totalWidth :: "nat \<Rightarrow> int" where
  "totalWidth octaves = 7 * whiteKeyWidth * int octaves"

type_synonym token_element = "(int, int) element"

text \<open>
  The two fill chains of the source, \<open>if (isPressed) ... else if (isRoot) ... else if
  (isExternalActive) ...\<close>, written inline there.
\<close>

definition tokenWhiteFill :: "bool \<Rightarrow> bool \<Rightarrow> bool \<Rightarrow> string" where
  "tokenWhiteFill isPressed isRoot isExternalActive =
     (if isPressed then ''#22d3ee''
      else if isRoot then ''#8b5cf6''
      else if isExternalActive then ''#60a5fa''
      else ''white'')"

definition tokenBlackFill :: "bool \<Rightarrow> bool \<Rightarrow> bool \<Rightarrow> string" where
  "tokenBlackFill isPressed isRoot isExternalActive =
     (if isPressed then ''#22d3ee''
      else if isRoot then ''#8b5cf6''
      else if isExternalActive then ''#60a5fa''
      else ''#1e293b'')"

fun tokenWhiteKey ::
  "int set \<Rightarrow> int \<Rightarrow> int set \<Rightarrow> int \<Rightarrow> int \<Rightarrow> nat \<times> int \<Rightarrow> token_element list" where
  "tokenWhiteKey activeIdx rootIdx playingNotes xOffset currentOctaveNumber (i, noteIndex) =
     (let midiNote = (currentOctaveNumber + 1) * 12 + noteIndex;
          isExternalActive = noteIndex \<in> activeIdx;
          isRoot = (rootIdx = noteIndex);
          isPressed = midiNote \<in> playingNotes;
          fill = tokenWhiteFill isPressed isRoot isExternalActive
      in [Rect White midiNote (xOffset + int i * whiteKeyWidth) 0
            whiteKeyWidth whiteKeyHeight fill]
         @ (if noteIndex = 0
            then [Text midiNote (xOffset + int i * whiteKeyWidth + whiteKeyWidth div 2)
                    (whiteKeyHeight - 10) (''C'' @ showInt currentOctaveNumber)]
            else []))"

fun tokenBlackKey ::
  "int set \<Rightarrow> int \<Rightarrow> int set \<Rightarrow> int \<Rightarrow> int \<Rightarrow> int \<times> int \<Rightarrow> token_element list" where
  "tokenBlackKey activeIdx rootIdx playingNotes xOffset currentOctaveNumber (idx, pos) =
     (let midiNote = (currentOctaveNumber + 1) * 12 + idx;
          xPos = xOffset + (pos * whiteKeyWidth) - (blackKeyWidth div 2);
          isExternalActive = idx \<in> activeIdx;
          isRoot = (rootIdx = idx);
          isPressed = midiNote \<in> playingNotes;
          fill = tokenBlackFill isPressed isRoot isExternalActive
      in [Rect Black midiNote xPos 0 blackKeyWidth blackKeyHeight fill])"

definition tokenOctave :: "int \<Rightarrow> int set \<Rightarrow> int \<Rightarrow> int set \<Rightarrow> nat \<Rightarrow> token_element list" where
  "tokenOctave octaveShift activeIdx rootIdx playingNotes oct =
     (let xOffset = int oct * (whiteKeyWidth * 7);
          currentOctaveNumber = START_OCTAVE + int oct + octaveShift
      in concat (map (tokenWhiteKey activeIdx rootIdx playingNotes xOffset currentOctaveNumber)
                   (enumerate 0 whiteNotes))
         @ concat (map (tokenBlackKey activeIdx rootIdx playingNotes xOffset currentOctaveNumber)
                     blackNotes))"

function tokenLoop ::
  "nat \<Rightarrow> int \<Rightarrow> int set \<Rightarrow> int \<Rightarrow> int set \<Rightarrow> nat \<Rightarrow> token_element list \<Rightarrow> token_element list" where
  "tokenLoop octaves octaveShift activeIdx rootIdx playingNotes oct generatedKeys =
     (if oct < octaves
      then tokenLoop octaves octaveShift activeIdx rootIdx playingNotes (oct + 1)
             (generatedKeys @ tokenOctave octaveShift activeIdx rootIdx playingNotes oct)
      else generatedKeys)"
  by pat_completeness auto
termination
  by (relation "measure (\<lambda>(octaves, octaveShift, activeIdx, rootIdx, playingNotes, oct,
        generatedKeys). octaves - oct)") auto

declare tokenLoop.simps [simp del]

definition tokenKeys ::
  "nat \<Rightarrow> int \<Rightarrow> int set \<Rightarrow> int \<Rightarrow> int set \<Rightarrow> token_element list" where
  "tokenKeys octaves octaveShift activeIdx rootIdx playingNotes =
     tokenLoop octaves octaveShift activeIdx rootIdx playingNotes 0 []"

subsection \<open>Visual states, as the specification describes them\<close>

text \<open>
  The specification names four visual states and ranks them: the state of a key is the
  highest-ranked state that applies to it. The colours are those of PianoToken.tsx.
\<close>

datatype visual_state = Default | ExternallyActive | RootKey | Pressed

fun rank :: "visual_state \<Rightarrow> nat" where
  "rank Default = 0"
| "rank ExternallyActive = 1"
| "rank RootKey = 2"
| "rank Pressed = 3"

definition applicable :: "bool \<Rightarrow> bool \<Rightarrow> bool \<Rightarrow> visual_state list" where
  "applicable isPressed isRoot isActive =
     [Default] @ (if isActive then [ExternallyActive] else [])
     @ (if isPressed then [Pressed] else []) @ (if isRoot then [RootKey] else [])"

definition highest :: "visual_state list \<Rightarrow> visual_state" where
  "highest states = fold (\<lambda>s best. if rank best < rank s then s else best) states Default"

fun stateFill :: "key_kind \<Rightarrow> visual_state \<Rightarrow> string" where
  "stateFill _ Pressed = ''#22d3ee''"
| "stateFill _ RootKey = ''#8b5cf6''"
| "stateFill _ ExternallyActive = ''#60a5fa''"
| "stateFill White Default = ''white''"
| "stateFill Black Default = ''#1e293b''"

text \<open>What the specification asks of one element, given the three inputs of the annotator.\<close>

definition fillOk :: "int set \<Rightarrow> int \<Rightarrow> int set \<Rightarrow> token_element \<Rightarrow> bool" where
  "fillOk A r P e \<longleftrightarrow>
     (isRect e \<longrightarrow> rectFill e = stateFill (rectKind e)
        (highest (applicable (rectKey e \<in> P) (r = rectKey e mod 12) (rectKey e mod 12 \<in> A))))"

text \<open>The position and size of an element, without its key, fill or text.\<close>

fun geometry :: "('k, 'l) element \<Rightarrow> bool \<times> int \<times> int \<times> int \<times> int" where
  "geometry (Rect k _ x y w h _) = (True, x, y, w, h)"
| "geometry (Text _ x y _) = (False, x, y, 0, 0)"

section \<open>PianoToken.tsx: the audio voices\<close>

text \<open>
  There are two clocks, both counted in milliseconds here. \<open>now\<close> is the clock of the
  event loop, against which \<open>setTimeout\<close> measures its delay. \<open>currentTime\<close> is
  \<open>ctx.currentTime\<close> (seconds in the source), the clock of the audio context: it is 0 when
  the context is created and moves only while the context runs, then at the pace of the
  first clock. The attack of 0.05 s is 50 and the release times 0.2 s and 1.5 s are 200
  and 1500 on the audio clock; the cleanup delay \<open>releaseTime * 1000 + 50\<close> is 250 or 1550
  on the clock of the event loop.
\<close>

datatype waveform = Triangle | Sine | Square | Sawtooth

datatype context_state = Suspended | Running

text \<open>
  The calls made on \<open>gain.gain\<close>, in order. \<open>CurrentValue\<close> stands for the value read
  from \<open>gain.gain.value\<close> when the call is made.
\<close>

datatype gain_value = Level rat | CurrentValue

datatype automation =
    SetValueAtTime gain_value int
  | LinearRampToValueAtTime rat int
  | ExponentialRampToValueAtTime rat int
  | CancelScheduledValues int

text \<open>
  An oscillator node. Its frequency \<open>440 * 2^((midiNote - 69) / 12)\<close> is a floating-point
  number; the node keeps the note it is computed from. \<open>oscGain\<close> is the gain node it is
  connected to, \<open>startedAt\<close> and \<open>stopAt\<close> the audio times given to \<open>start\<close> and to the
  last \<open>stop\<close> call.
\<close>

record oscillator_node =
  oscNote :: int
  oscType :: waveform
  oscGain :: nat
  startedAt :: int
  stopAt :: "int option"

text \<open>
  The nodes are objects held by reference: \<open>oscNodes\<close> and \<open>gainNodes\<close> list every node
  created so far, a node's handle is its index, and the two maps of the component,
  \<open>oscillatorsRef\<close> and \<open>gainNodesRef\<close>, map a MIDI note to a handle. A gain node is the
  list of the calls made on its \<open>gain\<close> parameter. \<open>timers\<close> are the pending
  \<open>setTimeout\<close> callbacks, each with its due time and the note it was created for.
  \<open>audioSupported\<close> says whether the browser has an \<open>AudioContext\<close> constructor and
  \<open>contextStartsSuspended\<close> in which state it creates a context. \<open>currentTime\<close> is kept
  beside the context: no operation moves it while there is no running context, so it is
  still 0 when the context is created (\<open>reachable\<close> below).
\<close>

record piano_state =
  audioSupported :: bool
  contextStartsSuspended :: bool
  audioContextRef :: "context_state option"
  oscNodes :: "oscillator_node list"
  gainNodes :: "automation list list"
  oscillatorsRef :: "int \<rightharpoonup> nat"
  gainNodesRef :: "int \<rightharpoonup> nat"
  playingNotes :: "int set"
  waveform :: waveform
  sustain :: bool
  now :: int
  currentTime :: int
  timers :: "(int \<times> int) list"

text \<open>The component when it is mounted.\<close>

definition initialState :: "bool \<Rightarrow> bool \<Rightarrow> piano_state" where
  "initialState supported suspended =
     \<lparr>audioSupported = supported, contextStartsSuspended = suspended,
      audioContextRef = None, oscNodes = [], gainNodes = [],
      oscillatorsRef = Map.empty, gainNodesRef = Map.empty, playingNotes = {},
      waveform = Triangle, sustain = False, now = 0, currentTime = 0, timers = []\<rparr>"

text \<open>\<open>resume()\<close> is taken to bring the context to the running state at once.\<close>

definition initAudio :: "piano_state \<Rightarrow> piano_state" where
  "initAudio s =
     (let s1 = (if audioContextRef s = None
                then (if audioSupported s
                      then s\<lparr>audioContextRef :=
                             Some (if contextStartsSuspended s then Suspended else Running)\<rparr>
                      else s)
                else s)
      in if audioContextRef s1 = Some Suspended
         then s1\<lparr>audioContextRef := Some Running\<rparr>
         else s1)"

definition playNoteStart :: "piano_state \<Rightarrow> int \<Rightarrow> piano_state" where
  "playNoteStart s midiNote =
     (let s1 = initAudio s
      in case audioContextRef s1 of
           None \<Rightarrow> s1
         | Some ctx \<Rightarrow>
             if oscillatorsRef s1 midiNote \<noteq> None then s1
             else
               let osc = length (oscNodes s1);
                   gain = length (gainNodes s1);
                   t = currentTime s1
               in s1\<lparr>oscNodes := oscNodes s1 @
                        [\<lparr>oscNote = midiNote, oscType = waveform s1, oscGain = gain,
                          startedAt = t, stopAt = None\<rparr>],
                      gainNodes := gainNodes s1 @
                        [[SetValueAtTime (Level 0) t, LinearRampToValueAtTime (3 / 10) (t + 50)]],
                      oscillatorsRef := (oscillatorsRef s1)(midiNote \<mapsto> osc),
                      gainNodesRef := (gainNodesRef s1)(midiNote \<mapsto> gain),
                      playingNotes := insert midiNote (playingNotes s1)\<rparr>)"

definition playNoteStop :: "piano_state \<Rightarrow> int \<Rightarrow> piano_state" where
  "playNoteStop s midiNote =
     (let releaseTime = (if sustain s then 1500 else 200);
          s1 = (case (audioContextRef s, oscillatorsRef s midiNote, gainNodesRef s midiNote) of
                  (Some ctx, Some osc, Some gain) \<Rightarrow>
                    let t = currentTime s
                    in s\<lparr>gainNodes := (gainNodes s)[gain := (gainNodes s ! gain) @
                             [CancelScheduledValues t, SetValueAtTime CurrentValue t,
                              ExponentialRampToValueAtTime (1 / 1000) (t + releaseTime)]],
                          oscNodes := (oscNodes s)[osc :=
                             (oscNodes s ! osc)\<lparr>stopAt := Some (t + releaseTime)\<rparr>],
                          timers := timers s @ [(now s + releaseTime + 50, midiNote)]\<rparr>
                | _ \<Rightarrow> s)
      in s1\<lparr>playingNotes := playingNotes s1 - {midiNote}\<rparr>)"

text \<open>The callback given to \<open>setTimeout\<close>.\<close>

definition cleanup :: "int \<Rightarrow> piano_state \<Rightarrow> piano_state" where
  "cleanup midiNote s =
     s\<lparr>oscillatorsRef := (oscillatorsRef s)(midiNote := None),
       gainNodesRef := (gainNodesRef s)(midiNote := None)\<rparr>"

text \<open>
  The clock of the event loop moves to \<open>t\<close>; the callbacks that are due by then run, in
  the order they were scheduled, and leave the list. The audio clock moves by the same
  amount when the context is running.
\<close>

definition advance :: "int \<Rightarrow> piano_state \<Rightarrow> piano_state" where
  "advance t s =
     (fold (\<lambda>(due, midiNote) st. if due \<le> t then cleanup midiNote st else st) (timers s) s)
       \<lparr>timers := filter (\<lambda>(due, midiNote). \<not> due \<le> t) (timers s),
        now := max (now s) t,
        currentTime := (if audioContextRef s = Some Running
                        then currentTime s + (max (now s) t - now s)
                        else currentTime s)\<rparr>"

text \<open>The two sound controls: \<open>setWaveform(type)\<close> and \<open>setSustain(!sustain)\<close>.\<close>

definition setWaveform :: "waveform \<Rightarrow> piano_state \<Rightarrow> piano_state" where
  "setWaveform w s = s\<lparr>waveform := w\<rparr>"

definition toggleSustain :: "piano_state \<Rightarrow> piano_state" where
  "toggleSustain s = s\<lparr>sustain := \<not> sustain s\<rparr>"

text \<open>The states the component can be in: what the events above make of the mounted one.\<close>

inductive reachable :: "piano_state \<Rightarrow> bool" where
  mount: "reachable (initialState supported suspended)"
| pressStart: "reachable s \<Longrightarrow> reachable (playNoteStart s midiNote)"
| pressEnd: "reachable s \<Longrightarrow> reachable (playNoteStop s midiNote)"
| tick: "reachable s \<Longrightarrow> reachable (advance t s)"
| wave: "reachable s \<Longrightarrow> reachable (setWaveform w s)"
| sus: "reachable s \<Longrightarrow> reachable (toggleSustain s)"

section \<open>PianoToken.tsx: the octave shifter\<close>

text \<open>
  The two buttons. A button whose \<open>disabled\<close> attribute holds receives no click; otherwise
  the click runs the updater of the source, \<open>Math.max(s - 1, -2)\<close> for the left button and
  \<open>Math.max(s + 1, 2)\<close> for the right one.
\<close>

datatype shift_button = ShiftDown | ShiftUp

fun shiftDisabled :: "int \<Rightarrow> shift_button \<Rightarrow> bool" where
  "shiftDisabled octaveShift ShiftDown = (octaveShift \<le> - 2)"
| "shiftDisabled octaveShift ShiftUp = (octaveShift \<ge> 2)"

fun shiftUpdater :: "shift_button \<Rightarrow> int \<Rightarrow> int" where
  "shiftUpdater ShiftDown s = max (s - 1) (- 2)"
| "shiftUpdater ShiftUp s = max (s + 1) 2"

definition clickShift :: "int \<Rightarrow> shift_button \<Rightarrow> int" where
  "clickShift octaveShift b =
     (if shiftDisabled octaveShift b then octaveShift else shiftUpdater b octaveShift)"

definition clickShifts :: "shift_button list \<Rightarrow> int" where
  "clickShifts bs = foldl clickShift 0 bs"

section \<open>App.tsx: the presets\<close>

datatype signature_type = SharpKey | FlatKey | NoKey

record key_signature =
  ks_type :: signature_type
  ks_count :: int
  ks_notes :: "string list"

datatype category = Scale | Chord | Interval | Other

record music_theory_response =
  resp_root :: string
  resp_type :: string
  resp_category :: category
  resp_notes :: "string list"
  resp_intervals :: "string list"
  resp_description :: string
  resp_keySignature :: "key_signature option"

record preset =
  preset_id :: string
  preset_name :: string
  preset_data :: music_theory_response
  preset_timestamp :: int

text \<open>
  The state of the component that the preset handlers read and write. A slot of
  \<open>localStorage\<close> holds the list that was given to \<open>JSON.stringify\<close>; the text itself is
  not modelled.
\<close>

record app_state =
  app_data :: "music_theory_response option"
  presets :: "preset list"
  localStorage :: "string \<rightharpoonup> preset list"

text \<open>
  \<open>handleSavePreset\<close> reads \<open>Date.now()\<close> twice, for the id and for the timestamp; the two
  readings are arguments here.
\<close>

definition handleSavePreset :: "app_state \<Rightarrow> int \<Rightarrow> int \<Rightarrow> app_state" where
  "handleSavePreset s t1 t2 =
     (case app_data s of
        None \<Rightarrow> s
      | Some d \<Rightarrow>
          let newPreset = \<lparr>preset_id = showInt t1, preset_name = resp_root d @ '' '' @ resp_type d,
                           preset_data = d, preset_timestamp = t2\<rparr>;
              updatedPresets = newPreset # presets s
          in s\<lparr>presets := updatedPresets,
                localStorage := (localStorage s)(''theorygen_presets'' \<mapsto> updatedPresets)\<rparr>)"

definition handleDeletePreset :: "app_state \<Rightarrow> string \<Rightarrow> app_state" where
  "handleDeletePreset s i =
     (let updatedPresets = filter (\<lambda>p. preset_id p \<noteq> i) (presets s)
      in s\<lparr>presets := updatedPresets,
            localStorage := (localStorage s)(''theorygen_presets'' \<mapsto> updatedPresets)\<rparr>)"

section \<open>Example states\<close>

text \<open>
  A run of the playable keyboard in which a key is released twice within the release
  window, as a mouse up followed by a mouse leave does. The component is mounted at 0 and
  first touched at 1000 on the clock of the event loop, when the audio context is created
  with audio time 0. Middle C is pressed at 1000 and released at 1000 (cleanup due at
  1250) and again at 1100, at audio time 100 (cleanup due at 1350). The first cleanup
  runs at 1250; the key is pressed again at 1250 and the second cleanup runs at 1350.
\<close>

definition mounted :: piano_state where
  "mounted = advance 1000 (initialState True False)"

definition pressed1 :: piano_state where
  "pressed1 = playNoteStart mounted 60"

definition released1 :: piano_state where
  "released1 = advance 1100 (playNoteStop pressed1 60)"

definition released2 :: piano_state where
  "released2 = playNoteStop released1 60"

definition cleaned1 :: piano_state where
  "cleaned1 = advance 1250 released2"

definition pressed2 :: piano_state where
  "pressed2 = playNoteStart cleaned1 60"

definition strayState :: piano_state where
  "strayState = advance 1350 pressed2"

text \<open>A single press of middle C with the sine waveform.\<close>

definition onePress :: piano_state where
  "onePress = playNoteStart ((initialState True True)\<lparr>waveform := Sine\<rparr>) 60"

text \<open>An application state with a result and one saved preset.\<close>

definition exampleResult :: music_theory_response where
  "exampleResult =
     \<lparr>resp_root = ''C'', resp_type = ''Major'', resp_category = Chord,
      resp_notes = [''C'', ''E'', ''G''], resp_intervals = [''1'', ''3'', ''5''],
      resp_description = ''A major triad'', resp_keySignature = None\<rparr>"

definition exampleApp :: app_state where
  "exampleApp =
     \<lparr>app_data = Some exampleResult,
      presets = [\<lparr>preset_id = ''7'', preset_name = ''D Minor'', preset_data = exampleResult,
                  preset_timestamp = 7\<rparr>],
      localStorage = Map.empty\<rparr>"

section \<open>Resolver lemmas\<close>

lemma toUpperChar_digit: "isDigit c \<Longrightarrow> toUpperChar c = c"
  unfolding isDigit_def by (simp, elim disjE) (simp_all add: toUpperChar_def)

lemma normalise_octave:
  assumes "\<forall>c\<in>set ds. isDigit c"
  shows "stripDigits (toUpperCase (xs @ ds)) = stripDigits (toUpperCase xs)"
proof -
  have "filter (\<lambda>c. \<not> isDigit c) (map toUpperChar ds) = []"
    using assms by (induction ds) (simp_all add: toUpperChar_digit)
  then show ?thesis
    by (simp add: stripDigits_def toUpperCase_def)
qed

lemma noteToOffset_plain:
  "noteToOffset (spelling lower l a []) = spellingPitchClass l a"
  by (cases l; cases a; cases lower)
     (simp_all add: spelling_def noteToOffset_def stripDigits_def toUpperCase_def
        toUpperChar_def isDigit_def NOTE_TO_OFFSET_def spellingPitchClass_def)

lemma table_values: "(k, v) \<in> set NOTE_TO_OFFSET \<Longrightarrow> 0 \<le> v \<and> v \<le> 11"
  unfolding NOTE_TO_OFFSET_def by (simp, elim disjE) simp_all

lemma noteToOffset_range:
  "noteToOffset n = - 1 \<or> (0 \<le> noteToOffset n \<and> noteToOffset n \<le> 11)"
proof (cases "map_of NOTE_TO_OFFSET (stripDigits (toUpperCase n))")
  case None
  then show ?thesis by (simp add: noteToOffset_def)
next
  case (Some v)
  then have "(stripDigits (toUpperCase n), v) \<in> set NOTE_TO_OFFSET"
    by (rule map_of_SomeD)
  then have "0 \<le> v \<and> v \<le> 11"
    by (rule table_values)
  with Some show ?thesis by (simp add: noteToOffset_def)
qed

lemma noteToOffset_recognized: "recognized n \<longleftrightarrow> noteToOffset n \<noteq> - 1"
proof (cases "map_of NOTE_TO_OFFSET (stripDigits (toUpperCase n))")
  case None
  then have "\<not> recognized n"
    unfolding recognized_def by (simp only: map_of_eq_None_iff not_False_eq_True)
  with None show ?thesis by (simp add: noteToOffset_def)
next
  case (Some v)
  then have mem: "(stripDigits (toUpperCase n), v) \<in> set NOTE_TO_OFFSET"
    by (rule map_of_SomeD)
  then have "0 \<le> v \<and> v \<le> 11"
    by (rule table_values)
  moreover have "recognized n"
    unfolding recognized_def using mem by (rule image_eqI [rotated]) simp
  ultimately show ?thesis using Some by (simp add: noteToOffset_def)
qed

lemma activeLoop_eq:
  "activeLoop s ns = s \<union> {noteToOffset n |n. n \<in> set ns \<and> noteToOffset n \<noteq> - 1}"
  by (induction ns arbitrary: s) (auto simp: Let_def)

lemma noteToOffset_spelling:
  assumes "\<forall>c\<in>set ds. isDigit c"
  shows "noteToOffset (spelling lower l a ds) = spellingPitchClass l a"
proof -
  have "spelling lower l a ds = spelling lower l a [] @ ds"
    by (simp add: spelling_def)
  then have "stripDigits (toUpperCase (spelling lower l a ds))
             = stripDigits (toUpperCase (spelling lower l a []))"
    using normalise_octave [OF assms] by simp
  then have "noteToOffset (spelling lower l a ds) = noteToOffset (spelling lower l a [])"
    by (simp add: noteToOffset_def)
  then show ?thesis
    by (simp add: noteToOffset_plain)
qed

lemma spellingPitchClass_range: "0 \<le> spellingPitchClass l a \<and> spellingPitchClass l a \<le> 11"
  by (simp add: spellingPitchClass_def)

lemma noteToOffset_literal:
  "noteToOffset ''B#'' = 0" "noteToOffset ''E#'' = 5"
  "noteToOffset ''Fb'' = 4" "noteToOffset ''Cb'' = 11"
  "noteToOffset ''C#'' = 1" "noteToOffset ''Db'' = 1"
  "noteToOffset ''D#'' = 3" "noteToOffset ''Eb'' = 3"
  "noteToOffset ''F#'' = 6" "noteToOffset ''Gb'' = 6"
  "noteToOffset ''G#'' = 8" "noteToOffset ''Ab'' = 8"
  "noteToOffset ''A#'' = 10" "noteToOffset ''Bb'' = 10"
  "noteToOffset ''C'' = 0" "noteToOffset ''E'' = 4" "noteToOffset ''F'' = 5"
  "noteToOffset ''B'' = 11" "noteToOffset ''G'' = 7"
  by (simp_all add: noteToOffset_def stripDigits_def toUpperCase_def
        toUpperChar_def isDigit_def NOTE_TO_OFFSET_def)

section \<open>The resolver\<close>

text \<open>
  Claim C2. Two spellings (a letter in either case, an optional sharp or flat, an optional
  octave number) that denote the same pitch class resolve to the same value, which is that
  pitch class and lies between 0 and 11. B# resolves to 0, E# to 5, Fb to 4 and Cb to 11,
  and every sharp spelling resolves like its flat counterpart.
\<close>

theorem enharmonic_spellings_resolve_equal:
  assumes "\<forall>c\<in>set ds. isDigit c" and "\<forall>c\<in>set ds'. isDigit c"
    and "spellingPitchClass l a = spellingPitchClass l' a'"
  shows "noteToOffset (spelling lo l a ds) = noteToOffset (spelling lo' l' a' ds')
       \<and> noteToOffset (spelling lo l a ds) = spellingPitchClass l a
       \<and> 0 \<le> noteToOffset (spelling lo l a ds) \<and> noteToOffset (spelling lo l a ds) \<le> 11
       \<and> noteToOffset ''B#'' = 0 \<and> noteToOffset ''E#'' = 5
       \<and> noteToOffset ''Fb'' = 4 \<and> noteToOffset ''Cb'' = 11
       \<and> noteToOffset ''C#'' = noteToOffset ''Db''
       \<and> noteToOffset ''D#'' = noteToOffset ''Eb''
       \<and> noteToOffset ''F#'' = noteToOffset ''Gb''
       \<and> noteToOffset ''G#'' = noteToOffset ''Ab''
       \<and> noteToOffset ''A#'' = noteToOffset ''Bb''
       \<and> noteToOffset ''B#'' = noteToOffset ''C''
       \<and> noteToOffset ''E#'' = noteToOffset ''F''
       \<and> noteToOffset ''Fb'' = noteToOffset ''E''
       \<and> noteToOffset ''Cb'' = noteToOffset ''B''"
  using assms
  by (simp add: noteToOffset_spelling spellingPitchClass_range noteToOffset_literal)

theorem enharmonic_spellings_witness:
  "list_all isDigit ''3'' \<and> list_all isDigit ''''
   \<and> spellingPitchClass LC Sharp = spellingPitchClass LD Flat
   \<and> spelling False LC Sharp ''3'' = ''C#3'' \<and> spelling True LD Flat '''' = ''db''
   \<and> noteToOffset ''C#3'' = noteToOffset ''db'' \<and> noteToOffset ''C#3'' = 1"
proof -
  have d: "\<forall>c\<in>set ''3''. isDigit c" by (simp add: isDigit_def)
  have e: "\<forall>c\<in>set ''''. isDigit c" by simp
  have p: "spellingPitchClass LC Sharp = spellingPitchClass LD Flat"
    by (simp add: spellingPitchClass_def)
  show ?thesis
    using d p enharmonic_spellings_resolve_equal [OF d e p, of False True]
    by (simp add: spelling_def spellingPitchClass_def list_all_iff)
qed

text \<open>
  Claim C4. A string that is not recognised resolves to the sentinel \<open>-1\<close>. The active
  set of any list of strings is a plain value (the computation has no failing branch): it
  holds exactly the pitch classes of the recognised notes of the list, all within 0 to 11.
\<close>

theorem unrecognized_notes_dropped:
  "(\<not> recognized n \<longrightarrow> noteToOffset n = - 1)
   \<and> activeIndices ns = {noteToOffset m |m. m \<in> set ns \<and> recognized m}
   \<and> activeIndices ns \<subseteq> {0..11}"
proof -
  have a: "activeIndices ns = {noteToOffset m |m. m \<in> set ns \<and> recognized m}"
    by (simp add: activeIndices_def activeLoop_eq noteToOffset_recognized)
  have "activeIndices ns \<subseteq> {0..11}"
    unfolding a using noteToOffset_range noteToOffset_recognized by fastforce
  with a show ?thesis
    by (simp add: noteToOffset_recognized)
qed

theorem unrecognized_notes_dropped_witness:
  "\<not> recognized ''H#'' \<and> noteToOffset ''H#'' = - 1
   \<and> activeIndices [''C'', ''H#'', ''not a note'', '''', ''Eb4''] = {0, 3}"
proof -
  have r: "\<not> recognized ''H#''"
    by (simp add: recognized_def stripDigits_def toUpperCase_def
        toUpperChar_def isDigit_def NOTE_TO_OFFSET_def)
  have "activeIndices [''C'', ''H#'', ''not a note'', '''', ''Eb4''] = {0, 3}"
    by (simp add: activeIndices_def noteToOffset_def stripDigits_def toUpperCase_def
        toUpperChar_def isDigit_def NOTE_TO_OFFSET_def insert_commute)
  with r show ?thesis
    using unrecognized_notes_dropped [of "''H#''" "[''C'', ''H#'', ''not a note'', '''', ''Eb4'']"]
    by simp
qed

section \<open>Layout lemmas\<close>

lemma pianoLoop_exit: "\<not> oct < OCTAVES \<Longrightarrow> pianoLoop A r oct acc = acc"
  by (subst pianoLoop.simps) simp

lemma pianoLoop_step:
  "oct < OCTAVES \<Longrightarrow>
   pianoLoop A r oct acc = pianoLoop A r (oct + 1) (acc @ pianoOctave A r oct)"
  by (subst pianoLoop.simps) simp

lemma pianoLoop_concat:
  "pianoLoop A r oct acc = acc @ concat (map (pianoOctave A r) [oct..<OCTAVES])"
proof (induction A r oct acc rule: pianoLoop.induct)
  case (1 A r oct acc)
  show ?case
  proof (cases "oct < OCTAVES")
    case True
    have "pianoLoop A r oct acc = pianoLoop A r (oct + 1) (acc @ pianoOctave A r oct)"
      using True by (rule pianoLoop_step)
    also have "\<dots> = (acc @ pianoOctave A r oct)
                 @ concat (map (pianoOctave A r) [oct + 1..<OCTAVES])"
      using True by (rule "1.IH")
    also have "\<dots> = acc @ concat (map (pianoOctave A r) (oct # [Suc oct..<OCTAVES]))"
      by simp
    also have "oct # [Suc oct..<OCTAVES] = [oct..<OCTAVES]"
      using True by (simp add: upt_conv_Cons)
    finally show ?thesis .
  next
    case False
    then show ?thesis
      by (simp add: pianoLoop_exit)
  qed
qed

lemma tokenLoop_exit: "\<not> oct < n \<Longrightarrow> tokenLoop n sh A r P oct acc = acc"
  by (subst tokenLoop.simps) simp

lemma tokenLoop_step:
  "oct < n \<Longrightarrow>
   tokenLoop n sh A r P oct acc
   = tokenLoop n sh A r P (oct + 1) (acc @ tokenOctave sh A r P oct)"
  by (subst tokenLoop.simps) simp

lemma tokenLoop_concat:
  "tokenLoop n sh A r P oct acc = acc @ concat (map (tokenOctave sh A r P) [oct..<n])"
proof (induction n sh A r P oct acc rule: tokenLoop.induct)
  case (1 n sh A r P oct acc)
  show ?case
  proof (cases "oct < n")
    case True
    have "tokenLoop n sh A r P oct acc
          = tokenLoop n sh A r P (oct + 1) (acc @ tokenOctave sh A r P oct)"
      using True by (rule tokenLoop_step)
    also have "\<dots> = (acc @ tokenOctave sh A r P oct)
                 @ concat (map (tokenOctave sh A r P) [oct + 1..<n])"
      using True by (rule "1.IH")
    also have "\<dots> = acc @ concat (map (tokenOctave sh A r P) (oct # [Suc oct..<n]))"
      by simp
    also have "oct # [Suc oct..<n] = [oct..<n]"
      using True by (simp add: upt_conv_Cons)
    finally show ?thesis .
  next
    case False
    then show ?thesis
      by (simp add: tokenLoop_exit)
  qed
qed

lemma pianoKeys_concat:
  "pianoKeys an rn = concat (map (pianoOctave (activeIndices an) (rootIndex rn)) [0..<OCTAVES])"
  by (simp add: pianoKeys_def pianoLoop_concat)

lemma tokenKeys_concat:
  "tokenKeys n sh A r P = concat (map (tokenOctave sh A r P) [0..<n])"
  by (simp add: tokenKeys_def tokenLoop_concat)

lemma concat_single:
  "oc < n \<Longrightarrow> concat (map (\<lambda>k. if k = oc then g k else []) [0..<n]) = g oc"
proof (induction n)
  case 0
  then show ?case by simp
next
  case (Suc n)
  show ?case
  proof (cases "oc = n")
    case True
    have "concat (map (\<lambda>k. if k = oc then g k else []) [0..<n]) = concat (map (\<lambda>k. []) [0..<n])"
      using True by (intro arg_cong [where f = concat] map_cong) auto
    then show ?thesis using True by simp
  next
    case False
    with Suc show ?thesis by simp
  qed
qed

lemma select_concat:
  "map f (filter Q (concat (map g xs))) = concat (map (\<lambda>x. map f (filter Q (g x))) xs)"
  by (induction xs) simp_all

lemma select_octave:
  assumes "oc < n"
    and "\<And>k. map f (filter Q (g k)) = (if k = oc then h k else [])"
  shows "map f (filter Q (concat (map g [0..<n]))) = h oc"
  using concat_single [OF assms(1), of h] by (simp add: select_concat assms(2))

lemma enumerate_whiteNotes:
  "enumerate 0 whiteNotes = [(0, 0), (1, 2), (2, 4), (3, 5), (4, 7), (5, 9), (6, 11)]"
  by (simp add: whiteNotes_def)

lemma midi_div:
  fixes c p :: int
  assumes "0 \<le> p" and "p < 12"
  shows "(c * 12 + p) div 12 = c"
proof -
  have "(c * 12 + p) div 12 = c + p div 12"
    by (rule div_mult_self3) simp
  with assms show ?thesis by simp
qed

lemma midi_mod:
  fixes c p :: int
  assumes "0 \<le> p" and "p < 12"
  shows "(c * 12 + p) mod 12 = p"
proof -
  have "(c * 12 + p) mod 12 = p mod 12"
    by (rule mod_mult_self3)
  with assms show ?thesis by simp
qed


lemma pianoWhiteKey_select:
  "map (\<lambda>e. (snd (rectKey e), rectX e))
     [e \<leftarrow> pianoWhiteKey A r k xo (i, pc). isRect e \<and> rectKind e = White \<and> fst (rectKey e) = oc]
   = (if k = oc then [(pc, xo + int i * whiteKeyWidth)] else [])"
  by (simp add: Let_def)

lemma pianoWhiteKey_not_black:
  "[e \<leftarrow> pianoWhiteKey A r k xo ip. isRect e \<and> rectKind e = Black \<and> Q e] = []"
  by (cases ip) (simp add: Let_def)

lemma pianoBlackKey_select:
  "map (\<lambda>e. (snd (rectKey e), rectX e))
     [e \<leftarrow> pianoBlackKey A r k xo (idx, pos). isRect e \<and> rectKind e = Black \<and> fst (rectKey e) = oc]
   = (if k = oc then [(idx, xo + pos * whiteKeyWidth - blackKeyWidth div 2)] else [])"
  by (simp add: Let_def)

lemma pianoBlackKey_not_white:
  "[e \<leftarrow> pianoBlackKey A r k xo ip. isRect e \<and> rectKind e = White \<and> Q e] = []"
  by (cases ip) (simp add: Let_def)

lemma tokenWhiteKey_select:
  assumes "0 \<le> pc" and "pc < 12"
  shows "map (\<lambda>e. (rectKey e mod 12, rectX e))
     [e \<leftarrow> tokenWhiteKey A r P xo cur (i, pc). isRect e \<and> rectKind e = White
        \<and> rectKey e div 12 = t]
   = (if cur + 1 = t then [(pc, xo + int i * whiteKeyWidth)] else [])"
  using assms
  by (simp add: Let_def midi_div [OF assms] midi_mod [OF assms] del: distrib_right_numeral)

lemma tokenWhiteKey_not_black:
  "[e \<leftarrow> tokenWhiteKey A r P xo cur ip. isRect e \<and> rectKind e = Black \<and> Q e] = []"
  by (cases ip) (simp add: Let_def)

lemma tokenBlackKey_select:
  assumes "0 \<le> idx" and "idx < 12"
  shows "map (\<lambda>e. (rectKey e mod 12, rectX e))
     [e \<leftarrow> tokenBlackKey A r P xo cur (idx, pos). isRect e \<and> rectKind e = Black
        \<and> rectKey e div 12 = t]
   = (if cur + 1 = t then [(idx, xo + pos * whiteKeyWidth - blackKeyWidth div 2)] else [])"
  using assms
  by (simp add: Let_def midi_div [OF assms] midi_mod [OF assms] del: distrib_right_numeral)

lemma tokenBlackKey_not_white:
  "[e \<leftarrow> tokenBlackKey A r P xo cur ip. isRect e \<and> rectKind e = White \<and> Q e] = []"
  by (cases ip) (simp add: Let_def)


lemma pianoOctave_white:
  "map (\<lambda>e. (snd (rectKey e), rectX e))
     [e \<leftarrow> pianoOctave A r k. isRect e \<and> rectKind e = White \<and> fst (rectKey e) = oc]
   = (if k = oc
      then map (\<lambda>(i, pc). (pc, int k * 7 * whiteKeyWidth + int i * whiteKeyWidth))
             (zip [0..<7] [0, 2, 4, 5, 7, 9, 11])
      else [])"
proof -
  have z: "zip [0..<7] [0, 2, 4, 5, 7, 9, 11::int] = enumerate 0 whiteNotes"
    by (simp add: enumerate_whiteNotes upt_rec)
  show ?thesis
    unfolding z pianoOctave_def Let_def filter_append map_append select_concat
      pianoBlackKey_not_white enumerate_whiteNotes
    by (simp add: pianoWhiteKey_select mult.commute mult.left_commute del: pianoWhiteKey.simps)
qed

lemma pianoOctave_black:
  "map (\<lambda>e. (snd (rectKey e), rectX e))
     [e \<leftarrow> pianoOctave A r k. isRect e \<and> rectKind e = Black \<and> fst (rectKey e) = oc]
   = (if k = oc
      then map (\<lambda>(pc, gap). (pc, int k * 7 * whiteKeyWidth + gap * whiteKeyWidth
                                  - blackKeyWidth div 2))
             [(1, 1), (3, 2), (6, 4), (8, 5), (10, 6)]
      else [])"
  unfolding pianoOctave_def Let_def filter_append map_append select_concat
    pianoWhiteKey_not_black blackNotes_def
  by (simp add: pianoBlackKey_select mult.commute mult.left_commute del: pianoBlackKey.simps)

lemma tokenOctave_white:
  "map (\<lambda>e. (rectKey e mod 12, rectX e))
     [e \<leftarrow> tokenOctave sh A r P k. isRect e \<and> rectKind e = White
        \<and> rectKey e div 12 = START_OCTAVE + int oc + sh + 1]
   = (if k = oc
      then map (\<lambda>(i, pc). (pc, int k * 7 * whiteKeyWidth + int i * whiteKeyWidth))
             (zip [0..<7] [0, 2, 4, 5, 7, 9, 11])
      else [])"
proof -
  have z: "zip [0..<7] [0, 2, 4, 5, 7, 9, 11::int] = enumerate 0 whiteNotes"
    by (simp add: enumerate_whiteNotes upt_rec)
  show ?thesis
    unfolding z tokenOctave_def Let_def filter_append map_append select_concat
      tokenBlackKey_not_white enumerate_whiteNotes
    by (simp add: tokenWhiteKey_select mult.commute mult.left_commute del: tokenWhiteKey.simps)
qed

lemma tokenOctave_black:
  "map (\<lambda>e. (rectKey e mod 12, rectX e))
     [e \<leftarrow> tokenOctave sh A r P k. isRect e \<and> rectKind e = Black
        \<and> rectKey e div 12 = START_OCTAVE + int oc + sh + 1]
   = (if k = oc
      then map (\<lambda>(pc, gap). (pc, int k * 7 * whiteKeyWidth + gap * whiteKeyWidth
                                  - blackKeyWidth div 2))
             [(1, 1), (3, 2), (6, 4), (8, 5), (10, 6)]
      else [])"
  unfolding tokenOctave_def Let_def filter_append map_append select_concat
    tokenWhiteKey_not_black blackNotes_def
  by (simp add: tokenBlackKey_select mult.commute mult.left_commute del: tokenBlackKey.simps)


lemma count_concat:
  assumes "\<And>k. length (filter Q (g k)) = c"
  shows "length (filter Q (concat (map g [0..<n]))) = c * n"
  by (induction n) (simp_all add: assms)

lemma showNat_digit: "n < 10 \<Longrightarrow> showNat n = [digitChar n]"
  by (subst showNat.simps) simp

lemmas size_defs = whiteKeyWidth_def whiteKeyHeight_def blackKeyWidth_def blackKeyHeight_def

lemma pianoOctave_counts:
  "length [e \<leftarrow> pianoOctave A r k. isRect e \<and> rectKind e = White] = 7"
  "length [e \<leftarrow> pianoOctave A r k. isRect e \<and> rectKind e = Black] = 5"
  by (simp_all add: pianoOctave_def enumerate_whiteNotes blackNotes_def Let_def)

lemma tokenOctave_counts:
  "length [e \<leftarrow> tokenOctave sh A r P k. isRect e \<and> rectKind e = White] = 7"
  "length [e \<leftarrow> tokenOctave sh A r P k. isRect e \<and> rectKind e = Black] = 5"
  by (simp_all add: tokenOctave_def enumerate_whiteNotes blackNotes_def Let_def)

lemma pianoKeys_counts:
  "length [e \<leftarrow> pianoKeys an rn. isRect e \<and> rectKind e = White] = 7 * OCTAVES"
  "length [e \<leftarrow> pianoKeys an rn. isRect e \<and> rectKind e = Black] = 5 * OCTAVES"
  unfolding pianoKeys_concat by (rule count_concat, rule pianoOctave_counts)+

lemma tokenKeys_counts:
  "length [e \<leftarrow> tokenKeys n sh A r P. isRect e \<and> rectKind e = White] = 7 * n"
  "length [e \<leftarrow> tokenKeys n sh A r P. isRect e \<and> rectKind e = Black] = 5 * n"
  unfolding tokenKeys_concat by (rule count_concat, rule tokenOctave_counts)+

lemma pianoKeys_first:
  "take 2 (pianoKeys an rn)
   = [Rect White (0, 0) 0 0 whiteKeyWidth whiteKeyHeight
        (pianoWhiteFill (rootIndex rn = 0) (0 \<in> activeIndices an)),
      Text 0 20 150 ''C3'']"
  by (simp add: pianoKeys_concat OCTAVES_def upt_rec pianoOctave_def enumerate_whiteNotes
        Let_def showInt_def showNat_digit digitChar_def START_OCTAVE_def size_defs)

lemma tokenKeys_first:
  "take 2 (tokenKeys 2 0 A r P)
   = [Rect White 48 0 0 whiteKeyWidth whiteKeyHeight (tokenWhiteFill (48 \<in> P) (r = 0) (0 \<in> A)),
      Text 48 20 150 ''C3'']"
  by (simp add: tokenKeys_concat upt_rec tokenOctave_def enumerate_whiteNotes
        Let_def showInt_def showNat_digit digitChar_def START_OCTAVE_def size_defs)

section \<open>The layout of an octave\<close>

text \<open>
  Claim C1. In both keyboards, the rectangles of every rendered octave are seven white
  keys with pitch classes 0, 2, 4, 5, 7, 9, 11 at \<open>x = o * 7 * whiteKeyWidth + i *
  whiteKeyWidth\<close> for the slots \<open>i = 0..6\<close>, and five black keys with pitch classes 1, 3,
  6, 8, 10 at \<open>x = o * 7 * whiteKeyWidth + gap * whiteKeyWidth - blackKeyWidth / 2\<close> for
  the gaps 1, 2, 4, 5, 6. The octave of a key is read from its React key: the first
  component in Piano.tsx, the MIDI number divided by 12 in PianoToken.tsx. With two octaves
  there are 14 white and 10 black keys, the width is \<open>14 * whiteKeyWidth\<close>, and the
  keyboard starts with the C key at \<open>x = 0\<close> followed by its label C3.
\<close>

theorem layout_per_octave:
  assumes "oc < octaves" and "po < OCTAVES"
  shows
    "map (\<lambda>e. (rectKey e mod 12, rectX e))
       [e \<leftarrow> tokenKeys octaves sh A r P. isRect e \<and> rectKind e = White
          \<and> rectKey e div 12 = START_OCTAVE + int oc + sh + 1]
     = map (\<lambda>(i, p). (p, int oc * 7 * whiteKeyWidth + int i * whiteKeyWidth))
         (zip [0..<7] [0, 2, 4, 5, 7, 9, 11])
   \<and> map (\<lambda>e. (rectKey e mod 12, rectX e))
       [e \<leftarrow> tokenKeys octaves sh A r P. isRect e \<and> rectKind e = Black
          \<and> rectKey e div 12 = START_OCTAVE + int oc + sh + 1]
     = map (\<lambda>(p, gap). (p, int oc * 7 * whiteKeyWidth + gap * whiteKeyWidth
                              - blackKeyWidth div 2))
         [(1, 1), (3, 2), (6, 4), (8, 5), (10, 6)]
   \<and> map (\<lambda>e. (snd (rectKey e), rectX e))
       [e \<leftarrow> pianoKeys an rn. isRect e \<and> rectKind e = White \<and> fst (rectKey e) = po]
     = map (\<lambda>(i, p). (p, int po * 7 * whiteKeyWidth + int i * whiteKeyWidth))
         (zip [0..<7] [0, 2, 4, 5, 7, 9, 11])
   \<and> map (\<lambda>e. (snd (rectKey e), rectX e))
       [e \<leftarrow> pianoKeys an rn. isRect e \<and> rectKind e = Black \<and> fst (rectKey e) = po]
     = map (\<lambda>(p, gap). (p, int po * 7 * whiteKeyWidth + gap * whiteKeyWidth
                              - blackKeyWidth div 2))
         [(1, 1), (3, 2), (6, 4), (8, 5), (10, 6)]
   \<and> length [e \<leftarrow> tokenKeys octaves sh A r P. isRect e \<and> rectKind e = White] = 7 * octaves
   \<and> length [e \<leftarrow> tokenKeys octaves sh A r P. isRect e \<and> rectKind e = Black] = 5 * octaves
   \<and> length [e \<leftarrow> tokenKeys (octavesOf False) sh A r P. isRect e \<and> rectKind e = White] = 14
   \<and> length [e \<leftarrow> tokenKeys (octavesOf False) sh A r P. isRect e \<and> rectKind e = Black] = 10
   \<and> length [e \<leftarrow> pianoKeys an rn. isRect e \<and> rectKind e = White] = 14
   \<and> length [e \<leftarrow> pianoKeys an rn. isRect e \<and> rectKind e = Black] = 10
   \<and> totalWidth (octavesOf False) = 14 * whiteKeyWidth
   \<and> pianoTotalWidth = 14 * whiteKeyWidth
   \<and> take 2 (tokenKeys (octavesOf False) 0 A r P)
     = [Rect White 48 0 0 whiteKeyWidth whiteKeyHeight
          (tokenWhiteFill (48 \<in> P) (r = 0) (0 \<in> A)),
        Text 48 20 150 ''C3'']
   \<and> take 2 (pianoKeys an rn)
     = [Rect White (0, 0) 0 0 whiteKeyWidth whiteKeyHeight
          (pianoWhiteFill (rootIndex rn = 0) (0 \<in> activeIndices an)),
        Text 0 20 150 ''C3'']"
proof -
  have tw: "map (\<lambda>e. (rectKey e mod 12, rectX e))
       [e \<leftarrow> tokenKeys octaves sh A r P. isRect e \<and> rectKind e = White
          \<and> rectKey e div 12 = START_OCTAVE + int oc + sh + 1]
     = map (\<lambda>(i, p). (p, int oc * 7 * whiteKeyWidth + int i * whiteKeyWidth))
         (zip [0..<7] [0, 2, 4, 5, 7, 9, 11])"
    unfolding tokenKeys_concat by (rule select_octave [OF assms(1)]) (rule tokenOctave_white)
  have tb: "map (\<lambda>e. (rectKey e mod 12, rectX e))
       [e \<leftarrow> tokenKeys octaves sh A r P. isRect e \<and> rectKind e = Black
          \<and> rectKey e div 12 = START_OCTAVE + int oc + sh + 1]
     = map (\<lambda>(p, gap). (p, int oc * 7 * whiteKeyWidth + gap * whiteKeyWidth
                              - blackKeyWidth div 2))
         [(1, 1), (3, 2), (6, 4), (8, 5), (10, 6)]"
    unfolding tokenKeys_concat by (rule select_octave [OF assms(1)]) (rule tokenOctave_black)
  have pw: "map (\<lambda>e. (snd (rectKey e), rectX e))
       [e \<leftarrow> pianoKeys an rn. isRect e \<and> rectKind e = White \<and> fst (rectKey e) = po]
     = map (\<lambda>(i, p). (p, int po * 7 * whiteKeyWidth + int i * whiteKeyWidth))
         (zip [0..<7] [0, 2, 4, 5, 7, 9, 11])"
    unfolding pianoKeys_concat by (rule select_octave [OF assms(2)]) (rule pianoOctave_white)
  have pb: "map (\<lambda>e. (snd (rectKey e), rectX e))
       [e \<leftarrow> pianoKeys an rn. isRect e \<and> rectKind e = Black \<and> fst (rectKey e) = po]
     = map (\<lambda>(p, gap). (p, int po * 7 * whiteKeyWidth + gap * whiteKeyWidth
                              - blackKeyWidth div 2))
         [(1, 1), (3, 2), (6, 4), (8, 5), (10, 6)]"
    unfolding pianoKeys_concat by (rule select_octave [OF assms(2)]) (rule pianoOctave_black)
  have two: "octavesOf False = 2"
    by (simp add: octavesOf_def DEFAULT_OCTAVES_def)
  have widths: "totalWidth (octavesOf False) = 14 * whiteKeyWidth"
    "pianoTotalWidth = 14 * whiteKeyWidth"
    by (simp_all add: two totalWidth_def pianoTotalWidth_def OCTAVES_def)
  have counts: "length [e \<leftarrow> pianoKeys an rn. isRect e \<and> rectKind e = White] = 14"
    "length [e \<leftarrow> pianoKeys an rn. isRect e \<and> rectKind e = Black] = 10"
    "length [e \<leftarrow> tokenKeys (octavesOf False) sh A r P. isRect e \<and> rectKind e = White] = 14"
    "length [e \<leftarrow> tokenKeys (octavesOf False) sh A r P. isRect e \<and> rectKind e = Black] = 10"
    by (simp_all add: two pianoKeys_counts tokenKeys_counts OCTAVES_def)
  show ?thesis
    by (intro conjI tw tb pw pb tokenKeys_counts counts widths pianoKeys_first)
       (simp add: two tokenKeys_first)
qed


theorem layout_per_octave_witness:
  "(1::nat) < 2 \<and> 1 < OCTAVES
   \<and> map (\<lambda>e. (rectKey e mod 12, rectX e))
       [e \<leftarrow> tokenKeys 2 1 {0, 4, 7} 0 {}. isRect e \<and> rectKind e = White
          \<and> rectKey e div 12 = 6]
     = [(0, 280), (2, 320), (4, 360), (5, 400), (7, 440), (9, 480), (11, 520)]
   \<and> map (\<lambda>e. (rectKey e mod 12, rectX e))
       [e \<leftarrow> tokenKeys 2 1 {0, 4, 7} 0 {}. isRect e \<and> rectKind e = Black
          \<and> rectKey e div 12 = 6]
     = [(1, 308), (3, 348), (6, 428), (8, 468), (10, 508)]
   \<and> map (\<lambda>e. (snd (rectKey e), rectX e))
       [e \<leftarrow> pianoKeys [''C'', ''E'', ''G''] (Some ''C''). isRect e \<and> rectKind e = White
          \<and> fst (rectKey e) = 1]
     = [(0, 280), (2, 320), (4, 360), (5, 400), (7, 440), (9, 480), (11, 520)]
   \<and> map (\<lambda>e. (snd (rectKey e), rectX e))
       [e \<leftarrow> pianoKeys [''C'', ''E'', ''G''] (Some ''C''). isRect e \<and> rectKind e = Black
          \<and> fst (rectKey e) = 1]
     = [(1, 308), (3, 348), (6, 428), (8, 468), (10, 508)]"
proof -
  have a: "(1::nat) < 2" by simp
  have b: "1 < OCTAVES" by (simp add: OCTAVES_def)
  have z: "[0..<7] = [0, 1, 2, 3, 4, 5, 6]" by (simp add: upt_rec)
  show ?thesis
    using a b
      layout_per_octave [OF a b, where sh = 1 and A = "{0, 4, 7}" and r = 0 and P = "{}"
        and an = "[''C'', ''E'', ''G'']" and rn = "Some ''C''"]
    by (simp add: z START_OCTAVE_def whiteKeyWidth_def blackKeyWidth_def)
qed


lemma tokenOctave_geometry:
  "map geometry (tokenOctave sh A r P k) = map geometry (tokenOctave 0 A r P k)"
  by (simp add: tokenOctave_def enumerate_whiteNotes blackNotes_def Let_def)

lemma map_concat_cong:
  assumes "\<And>k. map f (g k) = map f (h k)"
  shows "map f (concat (map g xs)) = map f (concat (map h xs))"
  by (induction xs) (simp_all add: assms)

lemma tokenOctave_midi:
  "map rectKey (filter isRect (tokenOctave sh A r P k))
   = map (\<lambda>m. m + 12 * sh) (map rectKey (filter isRect (tokenOctave 0 A' r' P' k)))"
  by (simp add: tokenOctave_def enumerate_whiteNotes blackNotes_def Let_def algebra_simps)

lemma tokenOctave_label:
  "map textContent (filter (\<lambda>e. \<not> isRect e) (tokenOctave sh A r P k))
   = [''C'' @ showInt (START_OCTAVE + int k + sh)]"
  by (simp add: tokenOctave_def enumerate_whiteNotes blackNotes_def Let_def)

lemma select_concat_singleton:
  assumes "\<And>k. map f (filter Q (g k)) = [h k]"
  shows "map f (filter Q (concat (map g xs))) = map h xs"
  by (induction xs) (simp_all add: assms)

lemma select_concat_cong:
  assumes "\<And>k. map f (filter Q (g k)) = map u (map f' (filter Q' (g' k)))"
  shows "map f (filter Q (concat (map g xs))) = map u (map f' (filter Q' (concat (map g' xs))))"
  by (induction xs) (simp_all add: assms)

section \<open>Octave shift and geometry\<close>

text \<open>
  Claim C5. For every octave shift the positions and sizes of all rendered elements are
  those at shift 0. The shift moves every MIDI number by \<open>12 * octaveShift\<close> and the
  label of the octave with index \<open>k\<close> reads \<open>START_OCTAVE + k + octaveShift\<close>.
\<close>

theorem geometry_ignores_octaveShift:
  "map geometry (tokenKeys octaves octaveShift A r P) = map geometry (tokenKeys octaves 0 A r P)
   \<and> map rectKey (filter isRect (tokenKeys octaves octaveShift A r P))
     = map (\<lambda>m. m + 12 * octaveShift) (map rectKey (filter isRect (tokenKeys octaves 0 A r P)))
   \<and> map textContent (filter (\<lambda>e. \<not> isRect e) (tokenKeys octaves octaveShift A r P))
     = map (\<lambda>k. ''C'' @ showInt (START_OCTAVE + int k + octaveShift)) [0..<octaves]"
proof (intro conjI)
  show "map geometry (tokenKeys octaves octaveShift A r P)
        = map geometry (tokenKeys octaves 0 A r P)"
    unfolding tokenKeys_concat by (rule map_concat_cong) (rule tokenOctave_geometry)
  show "map rectKey (filter isRect (tokenKeys octaves octaveShift A r P))
        = map (\<lambda>m. m + 12 * octaveShift)
            (map rectKey (filter isRect (tokenKeys octaves 0 A r P)))"
    unfolding tokenKeys_concat by (rule select_concat_cong) (rule tokenOctave_midi)
  show "map textContent (filter (\<lambda>e. \<not> isRect e) (tokenKeys octaves octaveShift A r P))
        = map (\<lambda>k. ''C'' @ showInt (START_OCTAVE + int k + octaveShift)) [0..<octaves]"
    unfolding tokenKeys_concat by (rule select_concat_singleton) (rule tokenOctave_label)
qed

lemma highest_applicable:
  "highest (applicable p r a)
   = (if p then Pressed else if r then RootKey else if a then ExternallyActive else Default)"
  by (simp add: highest_def applicable_def)

lemma stateFill_white:
  "stateFill White (highest (applicable p r a)) = tokenWhiteFill p r a"
  by (simp add: highest_applicable tokenWhiteFill_def)

lemma stateFill_black:
  "stateFill Black (highest (applicable p r a)) = tokenBlackFill p r a"
  by (simp add: highest_applicable tokenBlackFill_def)

lemma tokenWhiteKey_fill:
  assumes "0 \<le> pc" and "pc < 12"
  shows "list_all (fillOk A r P) (tokenWhiteKey A r P xo cur (i, pc))"
  using assms
  by (simp add: fillOk_def Let_def midi_mod [OF assms] stateFill_white del: distrib_right_numeral)

lemma tokenBlackKey_fill:
  assumes "0 \<le> idx" and "idx < 12"
  shows "list_all (fillOk A r P) (tokenBlackKey A r P xo cur (idx, pos))"
  using assms
  by (simp add: fillOk_def Let_def midi_mod [OF assms] stateFill_black del: distrib_right_numeral)

lemma list_all_concat_map:
  "list_all Q (concat (map f xs)) = list_all (\<lambda>x. list_all Q (f x)) xs"
  by (induction xs) simp_all

lemma tokenOctave_fill: "list_all (fillOk A r P) (tokenOctave sh A r P k)"
  unfolding tokenOctave_def Let_def enumerate_whiteNotes blackNotes_def
  by (simp add: tokenWhiteKey_fill tokenBlackKey_fill list_all_concat_map
        del: tokenWhiteKey.simps tokenBlackKey.simps)

lemma tokenKeys_fill: "list_all (fillOk A r P) (tokenKeys n sh A r P)"
  unfolding tokenKeys_concat list_all_concat_map
  by (rule list_all_iff [THEN iffD2]) (simp add: tokenOctave_fill)

section \<open>Fill colours\<close>

text \<open>
  Claim C3. The fill of every key rectangle of the playable keyboard is the colour of the
  highest-ranked state that applies to it, in the order pressed, root, externally active,
  default. With the active notes C, E, G and the root C, a pressed E key has the pressed
  colour although E is in the active set.
\<close>

theorem fill_follows_precedence:
  "(\<forall>e\<in>set (tokenKeys octaves octaveShift A r P). isRect e \<longrightarrow>
      rectFill e = stateFill (rectKind e)
        (highest (applicable (rectKey e \<in> P) (r = rectKey e mod 12) (rectKey e mod 12 \<in> A))))
   \<and> (\<forall>e\<in>set (tokenKeys octaves octaveShift (activeIndices [''C'', ''E'', ''G''])
                 (rootIndex (Some ''C'')) P).
        isRect e \<and> rectKey e mod 12 = noteToOffset ''E'' \<and> rectKey e \<in> P \<longrightarrow>
        rectKey e mod 12 \<in> activeIndices [''C'', ''E'', ''G'']
        \<and> rectFill e = stateFill (rectKind e) Pressed)"
proof -
  have gen: "\<And>B q e. e \<in> set (tokenKeys octaves octaveShift B q P) \<Longrightarrow> isRect e \<Longrightarrow>
      rectFill e = stateFill (rectKind e)
        (highest (applicable (rectKey e \<in> P) (q = rectKey e mod 12) (rectKey e mod 12 \<in> B)))"
    using tokenKeys_fill by (simp add: list_all_iff fillOk_def)
  have act: "noteToOffset ''E'' \<in> activeIndices [''C'', ''E'', ''G'']"
    by (simp add: activeIndices_def noteToOffset_literal)
  show ?thesis
    using gen act by (simp add: highest_applicable)
qed

theorem fill_follows_precedence_witness:
  "Rect White 52 80 0 40 160 ''#22d3ee''
     \<in> set (tokenKeys 2 0 (activeIndices [''C'', ''E'', ''G'']) (rootIndex (Some ''C'')) {52})
   \<and> isRect (Rect White 52 80 0 40 160 ''#22d3ee'' :: token_element)
   \<and> (52::int) mod 12 = noteToOffset ''E'' \<and> (52::int) \<in> {52}
   \<and> noteToOffset ''E'' \<in> activeIndices [''C'', ''E'', ''G'']
   \<and> ''#22d3ee'' = stateFill White Pressed
   \<and> highest (applicable True False True) = Pressed"
proof -
  let ?e = "Rect White 52 80 0 40 160 ''#22d3ee'' :: token_element"
  let ?A = "activeIndices [''C'', ''E'', ''G'']"
  have m: "?e \<in> set (tokenKeys 2 0 ?A (rootIndex (Some ''C'')) {52})"
    by (simp add: tokenKeys_concat upt_rec tokenOctave_def enumerate_whiteNotes blackNotes_def
          Let_def START_OCTAVE_def whiteKeyWidth_def whiteKeyHeight_def tokenWhiteFill_def)
  have e: "(52::int) mod 12 = noteToOffset ''E''"
    by (simp add: noteToOffset_literal)
  show ?thesis
    using m e fill_follows_precedence [of 2 0 ?A "rootIndex (Some ''C'')" "{52}"]
    by (auto simp: highest_applicable)
qed


section \<open>Voice lemmas\<close>

lemma initAudio_only_context: "initAudio s = s\<lparr>audioContextRef := audioContextRef (initAudio s)\<rparr>"
  by (simp add: initAudio_def Let_def)

lemma initAudio_idem: "initAudio (initAudio s) = initAudio s"
  by (simp add: initAudio_def Let_def)

lemma initAudio_never_suspended: "audioContextRef (initAudio s) \<noteq> Some Suspended"
  by (simp add: initAudio_def Let_def)

lemma initAudio_running: "audioContextRef s = Some Running \<Longrightarrow> initAudio s = s"
  by (simp add: initAudio_def Let_def)

lemma initAudio_oscillatorsRef: "oscillatorsRef (initAudio s) = oscillatorsRef s"
  by (simp add: initAudio_def Let_def)

lemma playNoteStart_existing:
  "oscillatorsRef s m \<noteq> None \<Longrightarrow> playNoteStart s m = initAudio s"
  by (simp add: playNoteStart_def Let_def initAudio_oscillatorsRef split: option.splits)

lemma playNoteStart_registers:
  "audioContextRef (playNoteStart s m) \<noteq> None \<Longrightarrow> oscillatorsRef (playNoteStart s m) m \<noteq> None"
  by (simp add: playNoteStart_def Let_def split: option.splits if_splits)

lemma playNoteStart_context:
  "audioContextRef (playNoteStart s m) = audioContextRef (initAudio s)"
  by (simp add: playNoteStart_def Let_def split: option.splits)

lemma playNoteStart_idem: "playNoteStart (playNoteStart s m) m = playNoteStart s m"
proof (cases "audioContextRef (initAudio s)")
  case None
  then have a: "playNoteStart s m = initAudio s"
    by (simp add: playNoteStart_def)
  show ?thesis
    unfolding a using None by (simp add: playNoteStart_def initAudio_idem)
next
  case (Some c)
  then have "audioContextRef (playNoteStart s m) \<noteq> None"
    by (simp add: playNoteStart_context)
  then have "oscillatorsRef (playNoteStart s m) m \<noteq> None"
    by (rule playNoteStart_registers)
  then have "playNoteStart (playNoteStart s m) m = initAudio (playNoteStart s m)"
    by (rule playNoteStart_existing)
  moreover have "audioContextRef (playNoteStart s m) = Some Running"
    using Some initAudio_never_suspended [of s]
    by (cases c) (simp_all add: playNoteStart_context)
  ultimately show ?thesis
    by (simp add: initAudio_running)
qed


lemma playNoteStart_twice_count:
  "let s2 = playNoteStart (playNoteStart ((initialState True b)\<lparr>waveform := w\<rparr>) 60) 60
   in dom (oscillatorsRef s2) = {60} \<and> dom (gainNodesRef s2) = {60}
      \<and> length (oscNodes s2) = 1 \<and> length (gainNodes s2) = 1 \<and> playingNotes s2 = {60}"
  unfolding playNoteStart_idem
  by (simp add: playNoteStart_def initAudio_def initialState_def Let_def)

lemma playNoteStop_keeps_records:
  "oscillatorsRef (playNoteStop s m) = oscillatorsRef s"
  "gainNodesRef (playNoteStop s m) = gainNodesRef s"
  "audioContextRef (playNoteStop s m) = audioContextRef s"
  by (simp_all add: playNoteStop_def Let_def split: option.splits)

lemma cleanup_step_refs:
  "oscillatorsRef (if d \<le> t then cleanup n st else st) m
     = (if n = m \<and> d \<le> t then None else oscillatorsRef st m)"
  "gainNodesRef (if d \<le> t then cleanup n st else st) m
     = (if n = m \<and> d \<le> t then None else gainNodesRef st m)"
  by (simp_all add: cleanup_def)

lemma cleanup_self:
  "oscillatorsRef (cleanup m s) m = None" "gainNodesRef (cleanup m s) m = None"
  by (simp_all add: cleanup_def)

lemma fold_cleanup_osc:
  "oscillatorsRef (fold (\<lambda>(due, n) st. if due \<le> t then cleanup n st else st) ts s) m
     = (if \<exists>(due, n)\<in>set ts. n = m \<and> due \<le> t then None else oscillatorsRef s m)"
proof (induction ts arbitrary: s)
  case Nil
  then show ?case by simp
next
  case (Cons x ts)
  obtain d n where x: "x = (d, n)" by (cases x)
  show ?case
    unfolding x using Cons.IH [of "if d \<le> t then cleanup n s else s"]
    by (auto simp: cleanup_step_refs cleanup_self)
qed

lemma fold_cleanup_gain:
  "gainNodesRef (fold (\<lambda>(due, n) st. if due \<le> t then cleanup n st else st) ts s) m
     = (if \<exists>(due, n)\<in>set ts. n = m \<and> due \<le> t then None else gainNodesRef s m)"
proof (induction ts arbitrary: s)
  case Nil
  then show ?case by simp
next
  case (Cons x ts)
  obtain d n where x: "x = (d, n)" by (cases x)
  show ?case
    unfolding x using Cons.IH [of "if d \<le> t then cleanup n s else s"]
    by (auto simp: cleanup_step_refs cleanup_self)
qed

lemmas fold_cleanup_refs = fold_cleanup_osc fold_cleanup_gain

lemma advance_refs:
  "oscillatorsRef (advance t s) m
     = (if \<exists>(due, n)\<in>set (timers s). n = m \<and> due \<le> t then None else oscillatorsRef s m)"
  "gainNodesRef (advance t s) m
     = (if \<exists>(due, n)\<in>set (timers s). n = m \<and> due \<le> t then None else gainNodesRef s m)"
  by (simp_all add: advance_def fold_cleanup_refs)

lemma playNoteStop_voice:
  assumes "audioContextRef s = Some c" and "oscillatorsRef s m = Some osc"
    and "gainNodesRef s m = Some g"
  shows "playNoteStop s m =
     s\<lparr>gainNodes := (gainNodes s)[g := (gainNodes s ! g) @
          [CancelScheduledValues (currentTime s), SetValueAtTime CurrentValue (currentTime s),
           ExponentialRampToValueAtTime (1 / 1000)
             (currentTime s + (if sustain s then 1500 else 200))]],
       oscNodes := (oscNodes s)[osc :=
          (oscNodes s ! osc)\<lparr>stopAt := Some (currentTime s + (if sustain s then 1500 else 200))\<rparr>],
       timers := timers s @ [(now s + (if sustain s then 1500 else 200) + 50, m)],
       playingNotes := playingNotes s - {m}\<rparr>"
  using assms by (simp add: playNoteStop_def Let_def)

lemma playNoteStop_no_voice:
  assumes "audioContextRef s = None \<or> oscillatorsRef s m = None \<or> gainNodesRef s m = None"
  shows "playNoteStop s m = s\<lparr>playingNotes := playingNotes s - {m}\<rparr>"
  using assms by (auto simp: playNoteStop_def Let_def split: option.splits)

lemma fold_cleanup_field:
  assumes "\<And>n st. f (cleanup n st) = f st"
  shows "f (fold (\<lambda>(due, n) st. if due \<le> t then cleanup n st else st) ts s) = f s"
proof (induction ts arbitrary: s)
  case Nil
  then show ?case by simp
next
  case (Cons x ts)
  obtain d n where x: "x = (d, n)" by (cases x)
  show ?case
    unfolding x using Cons.IH [of "if d \<le> t then cleanup n s else s"]
    by (simp add: assms)
qed

lemma advance_fields:
  "audioContextRef (advance t s) = audioContextRef s"
  "sustain (advance t s) = sustain s"
  "playingNotes (advance t s) = playingNotes s"
  "oscNodes (advance t s) = oscNodes s"
  "gainNodes (advance t s) = gainNodes s"
  "waveform (advance t s) = waveform s"
  "timers (advance t s) = filter (\<lambda>(due, n). \<not> due \<le> t) (timers s)"
  "now (advance t s) = max (now s) t"
  "currentTime (advance t s)
     = (if audioContextRef s = Some Running then currentTime s + (max (now s) t - now s)
        else currentTime s)"
  unfolding advance_def
  by (simp_all add: fold_cleanup_field [where f = audioContextRef]
        fold_cleanup_field [where f = sustain] fold_cleanup_field [where f = playingNotes]
        fold_cleanup_field [where f = oscNodes] fold_cleanup_field [where f = gainNodes]
        fold_cleanup_field [where f = waveform] cleanup_def)

lemma playNoteStop_playingNotes: "playingNotes (playNoteStop s m) = playingNotes s - {m}"
  by (simp add: playNoteStop_def Let_def split: option.splits)

lemma playNoteStop_fields:
  "sustain (playNoteStop s m) = sustain s" "now (playNoteStop s m) = now s"
  "currentTime (playNoteStop s m) = currentTime s" "waveform (playNoteStop s m) = waveform s"
  by (simp_all add: playNoteStop_def Let_def split: option.splits)

lemma playNoteStart_clock:
  "currentTime (playNoteStart s m) = currentTime s" "waveform (playNoteStart s m) = waveform s"
  by (simp_all add: playNoteStart_def initAudio_def Let_def split: option.splits)

text \<open>
  The audio clock stands at 0 for as long as there is no context, so a context is created
  with \<open>currentTime = 0\<close>, as in the browser.
\<close>

lemma reachable_clock_before_context:
  "reachable s \<Longrightarrow> audioContextRef s = None \<Longrightarrow> currentTime s = 0"
proof (induction rule: reachable.induct)
  case (mount supported suspended)
  show ?case by (simp add: initialState_def)
next
  case (pressStart s midiNote)
  have "audioContextRef s = None"
    using pressStart.prems
    by (simp add: playNoteStart_context initAudio_def Let_def split: if_splits)
  with pressStart.IH show ?case
    by (simp add: playNoteStart_clock)
next
  case (pressEnd s midiNote)
  then show ?case
    by (simp add: playNoteStop_keeps_records playNoteStop_fields)
next
  case (tick s t)
  then show ?case
    by (simp add: advance_fields)
next
  case (wave s w)
  then show ?case by (simp add: setWaveform_def)
next
  case (sus s)
  then show ?case by (simp add: toggleSustain_def)
qed

lemma mounted_facts:
  "audioContextRef mounted = None" "audioSupported mounted" "\<not> contextStartsSuspended mounted"
  "oscillatorsRef mounted 60 = None" "oscNodes mounted = []" "gainNodes mounted = []"
  "sustain mounted = False" "now mounted = 1000" "currentTime mounted = 0"
  "timers mounted = []" "playingNotes mounted = {}" "waveform mounted = Triangle"
  by (simp_all add: mounted_def advance_fields advance_refs)
     (simp_all add: initialState_def advance_def)

lemma pressed1_facts:
  "audioContextRef pressed1 = Some Running" "oscillatorsRef pressed1 60 = Some 0"
  "gainNodesRef pressed1 60 = Some 0" "sustain pressed1 = False" "now pressed1 = 1000"
  "currentTime pressed1 = 0" "timers pressed1 = []" "playingNotes pressed1 = {60}"
  "waveform pressed1 = Triangle"
  "oscNodes pressed1 = [\<lparr>oscNote = 60, oscType = Triangle, oscGain = 0, startedAt = 0,
                          stopAt = None\<rparr>]"
  "gainNodes pressed1 = [[SetValueAtTime (Level 0) 0, LinearRampToValueAtTime (3 / 10) 50]]"
  by (simp_all add: pressed1_def playNoteStart_def initAudio_def mounted_facts Let_def)

lemma released1_facts:
  "audioContextRef released1 = Some Running" "oscillatorsRef released1 60 = Some 0"
  "gainNodesRef released1 60 = Some 0" "sustain released1 = False" "now released1 = 1100"
  "currentTime released1 = 100" "timers released1 = [(1250, 60)]" "playingNotes released1 = {}"
  "waveform released1 = Triangle"
  "oscNodes released1 = [\<lparr>oscNote = 60, oscType = Triangle, oscGain = 0, startedAt = 0,
                           stopAt = Some 200\<rparr>]"
  "gainNodes released1 = [[SetValueAtTime (Level 0) 0, LinearRampToValueAtTime (3 / 10) 50,
      CancelScheduledValues 0, SetValueAtTime CurrentValue 0,
      ExponentialRampToValueAtTime (1 / 1000) 200]]"
  by (simp_all add: released1_def advance_fields advance_refs
        playNoteStop_voice [of pressed1 Running 60 0 0] pressed1_facts)

lemma released2_facts:
  "audioContextRef released2 = Some Running" "oscillatorsRef released2 60 = Some 0"
  "gainNodesRef released2 60 = Some 0" "sustain released2 = False" "now released2 = 1100"
  "currentTime released2 = 100" "timers released2 = [(1250, 60), (1350, 60)]"
  "playingNotes released2 = {}" "waveform released2 = Triangle"
  "oscNodes released2 = [\<lparr>oscNote = 60, oscType = Triangle, oscGain = 0, startedAt = 0,
                           stopAt = Some 300\<rparr>]"
  "gainNodes released2 = [[SetValueAtTime (Level 0) 0, LinearRampToValueAtTime (3 / 10) 50,
      CancelScheduledValues 0, SetValueAtTime CurrentValue 0,
      ExponentialRampToValueAtTime (1 / 1000) 200,
      CancelScheduledValues 100, SetValueAtTime CurrentValue 100,
      ExponentialRampToValueAtTime (1 / 1000) 300]]"
  by (simp_all add: released2_def playNoteStop_voice [of released1 Running 60 0 0]
        released1_facts)

lemma cleaned1_facts:
  "audioContextRef cleaned1 = Some Running" "oscillatorsRef cleaned1 60 = None"
  "gainNodesRef cleaned1 60 = None" "sustain cleaned1 = False" "now cleaned1 = 1250"
  "currentTime cleaned1 = 250" "timers cleaned1 = [(1350, 60)]" "playingNotes cleaned1 = {}"
  "waveform cleaned1 = Triangle" "length (gainNodes cleaned1) = 1"
  "oscNodes cleaned1 = [\<lparr>oscNote = 60, oscType = Triangle, oscGain = 0, startedAt = 0,
                          stopAt = Some 300\<rparr>]"
  by (simp_all add: cleaned1_def advance_fields advance_refs released2_facts)

lemma pressed2_facts:
  "audioContextRef pressed2 = Some Running" "timers pressed2 = [(1350, 60)]"
  "playingNotes pressed2 = {60}" "now pressed2 = 1250" "currentTime pressed2 = 250"
  "oscillatorsRef pressed2 60 = Some 1"
  "oscNodes pressed2 = [\<lparr>oscNote = 60, oscType = Triangle, oscGain = 0, startedAt = 0,
                          stopAt = Some 300\<rparr>,
                        \<lparr>oscNote = 60, oscType = Triangle, oscGain = 1, startedAt = 250,
                          stopAt = None\<rparr>]"
  by (simp_all add: pressed2_def playNoteStart_def initAudio_running cleaned1_facts Let_def)

lemma strayState_facts:
  "oscillatorsRef strayState 60 = None" "gainNodesRef strayState 60 = None"
  "playingNotes strayState = {60}" "now strayState = 1350" "currentTime strayState = 350"
  "oscNodes strayState = oscNodes pressed2"
  by (simp_all add: strayState_def advance_fields advance_refs pressed2_facts)


section \<open>Voices\<close>

text \<open>
  Claim C6. While a voice is registered for a note, whether it sounds or is being
  released, \<open>playNoteStart\<close> for that note changes nothing but the state of a suspended
  audio context, which it resumes; with a running context it changes nothing at all. Two
  calls in a row for a note equal one call, and from the mounted component they leave one
  oscillator and one gain node, registered for MIDI 60.
\<close>

theorem pressStart_existing_voice_noop:
  "(oscillatorsRef s m \<noteq> None \<longrightarrow>
      playNoteStart s m = s\<lparr>audioContextRef := audioContextRef (initAudio s)\<rparr>
      \<and> (audioContextRef s = Some Running \<longrightarrow>
           playNoteStart s m = s
           \<and> playNoteStart (playNoteStop s m) m = playNoteStop s m))
   \<and> playNoteStart (playNoteStart s m) m = playNoteStart s m
   \<and> (let s2 = playNoteStart (playNoteStart ((initialState True susp)\<lparr>waveform := w\<rparr>) 60) 60
      in dom (oscillatorsRef s2) = {60} \<and> dom (gainNodesRef s2) = {60}
         \<and> length (oscNodes s2) = 1 \<and> length (gainNodes s2) = 1 \<and> playingNotes s2 = {60})"
proof -
  have f1: "playNoteStart s m = s\<lparr>audioContextRef := audioContextRef (initAudio s)\<rparr>"
    if "oscillatorsRef s m \<noteq> None"
    using playNoteStart_existing [OF that] initAudio_only_context [of s] by simp
  have f2: "playNoteStart s m = s" if "oscillatorsRef s m \<noteq> None" "audioContextRef s = Some Running"
    using playNoteStart_existing [OF that(1)] initAudio_running [OF that(2)] by simp
  have f3: "playNoteStart (playNoteStop s m) m = playNoteStop s m"
    if "oscillatorsRef s m \<noteq> None" "audioContextRef s = Some Running"
  proof -
    have "oscillatorsRef (playNoteStop s m) m \<noteq> None"
      using that(1) by (simp add: playNoteStop_keeps_records)
    then have "playNoteStart (playNoteStop s m) m = initAudio (playNoteStop s m)"
      by (rule playNoteStart_existing)
    also have "\<dots> = playNoteStop s m"
      using that(2) by (intro initAudio_running) (simp add: playNoteStop_keeps_records)
    finally show ?thesis .
  qed
  have g: "oscillatorsRef s m \<noteq> None \<longrightarrow>
      playNoteStart s m = s\<lparr>audioContextRef := audioContextRef (initAudio s)\<rparr>
      \<and> (audioContextRef s = Some Running \<longrightarrow>
           playNoteStart s m = s
           \<and> playNoteStart (playNoteStop s m) m = playNoteStop s m)"
    using f1 f2 f3 by blast
  show ?thesis
    by (intro conjI g playNoteStart_idem playNoteStart_twice_count)
qed

theorem pressStart_existing_voice_witness:
  "oscillatorsRef onePress 60 \<noteq> None \<and> audioContextRef onePress = Some Running
   \<and> playNoteStart onePress 60 = onePress
   \<and> playNoteStart (playNoteStop onePress 60) 60 = playNoteStop onePress 60
   \<and> length (oscNodes (playNoteStart onePress 60)) = 1"
proof -
  have a: "oscillatorsRef onePress 60 \<noteq> None"
    by (simp add: onePress_def playNoteStart_def initAudio_def initialState_def Let_def)
  have b: "audioContextRef onePress = Some Running"
    by (simp add: onePress_def playNoteStart_def initAudio_def initialState_def Let_def)
  have c: "playNoteStart onePress 60 = onePress
           \<and> playNoteStart (playNoteStop onePress 60) 60 = playNoteStop onePress 60"
    using a b pressStart_existing_voice_noop [of onePress 60] by blast
  have d: "length (oscNodes onePress) = 1"
    by (simp add: onePress_def playNoteStart_def initAudio_def initialState_def Let_def)
  show ?thesis
    using a b c d by simp
qed

text \<open>
  Claim C7. The claim asks that the record of a voice is deleted strictly after its
  release window, and that \<open>playNoteStop\<close> for a note without a voice changes nothing. In
  the run above the code does neither. The second release ends its ramp and stops the
  oscillator at audio time 300, but the cleanup scheduled by the first release deletes
  the record at audio time 250. The key pressed at that moment gets a second oscillator
  while the first one still sounds; the cleanup of the second release then deletes the
  record of this new voice. What is left is an oscillator with no stop scheduled and no
  record: \<open>playNoteStop\<close> finds no voice for the note, leaves the nodes as they are, and
  still changes the state.
\<close>

theorem double_release_cleans_up_early:
  "timers released2 = [(1250, 60), (1350, 60)]
   \<and> oscillatorsRef released2 60 = Some 0
   \<and> map stopAt (oscNodes released2) = [Some 300]
   \<and> last (gainNodes released2 ! 0) = ExponentialRampToValueAtTime (1 / 1000) 300
   \<and> now cleaned1 = 1250 \<and> currentTime cleaned1 = 250
   \<and> oscillatorsRef cleaned1 60 = None \<and> gainNodesRef cleaned1 60 = None
   \<and> map stopAt (oscNodes cleaned1) = [Some 300]
   \<and> map startedAt (oscNodes strayState) = [0, 250]
   \<and> map stopAt (oscNodes strayState) = [Some 300, None]
   \<and> currentTime strayState = 350
   \<and> oscillatorsRef strayState 60 = None \<and> gainNodesRef strayState 60 = None
   \<and> playingNotes strayState = {60}
   \<and> oscNodes (playNoteStop strayState 60) = oscNodes strayState
   \<and> playNoteStop strayState 60 \<noteq> strayState"
proof -
  have stop: "playNoteStop strayState 60 = strayState\<lparr>playingNotes := {}\<rparr>"
    by (simp add: playNoteStop_no_voice strayState_facts)
  have "playingNotes (playNoteStop strayState 60) \<noteq> playingNotes strayState"
    by (simp add: stop strayState_facts)
  then have changed: "playNoteStop strayState 60 \<noteq> strayState"
    by auto
  have nodes: "oscNodes (playNoteStop strayState 60) = oscNodes strayState"
    by (simp add: stop)
  show ?thesis
    using changed nodes
    by (simp add: released2_facts cleaned1_facts strayState_facts pressed2_facts)
qed

text \<open>
  Claim C10. \<open>playNoteStop\<close> removes the note from the pressed set in every state, with
  or without a voice, and leaves both voice maps as they are: right after a release the
  note is out of the pressed set and its record is still there. The record does not
  always last until the release window is over. In the run above the note is out of the
  pressed set after the second release, whose window ends at audio time 300, and the
  record is gone at audio time 250.
\<close>

theorem record_gone_within_release_window:
  "playingNotes (playNoteStop s m) = playingNotes s - {m}
   \<and> oscillatorsRef (playNoteStop s m) = oscillatorsRef s
   \<and> gainNodesRef (playNoteStop s m) = gainNodesRef s
   \<and> playingNotes pressed1 = {60}
   \<and> playingNotes (playNoteStop released1 60) = {}
   \<and> oscillatorsRef (playNoteStop released1 60) 60 = Some 0
   \<and> map stopAt (oscNodes (playNoteStop released1 60)) = [Some 300]
   \<and> currentTime (advance 1250 (playNoteStop released1 60)) = 250
   \<and> oscillatorsRef (advance 1250 (playNoteStop released1 60)) 60 = None
   \<and> gainNodesRef (advance 1250 (playNoteStop released1 60)) 60 = None"
  using released2_facts cleaned1_facts
  by (simp add: playNoteStop_playingNotes playNoteStop_keeps_records pressed1_facts
        released2_def cleaned1_def)

section \<open>The octave shifter\<close>

lemma clickShift_range:
  "- 2 \<le> s \<and> s \<le> 2 \<Longrightarrow> - 2 \<le> clickShift s b \<and> clickShift s b \<le> 2"
  by (cases b) (simp_all add: clickShift_def)

lemma foldl_clickShift_range:
  "- 2 \<le> s \<and> s \<le> 2 \<Longrightarrow> - 2 \<le> foldl clickShift s bs \<and> foldl clickShift s bs \<le> 2"
proof (induction bs arbitrary: s)
  case Nil
  then show ?case by simp
next
  case (Cons b bs)
  have "- 2 \<le> clickShift s b \<and> clickShift s b \<le> 2"
    using Cons.prems by (rule clickShift_range)
  then show ?case
    using Cons.IH by simp
qed

text \<open>
  Claim C8. Starting from 0, after any sequence of clicks on the two octave buttons, each
  click taking effect only while its button is enabled, the octave shift lies between -2
  and 2.
\<close>

theorem octaveShift_stays_in_range:
  "- 2 \<le> clickShifts bs \<and> clickShifts bs \<le> 2"
  unfolding clickShifts_def by (rule foldl_clickShift_range) simp

section \<open>Presets\<close>

text \<open>
  Claim C9. Deleting an id that no preset of the list has leaves the list as it is. Saving,
  when there is a current result, puts the new preset in front of the unchanged list. Both
  handlers write the whole new list to the storage slot.
\<close>

theorem presets_delete_and_save:
  "(i \<notin> preset_id ` set (presets s) \<longrightarrow> presets (handleDeletePreset s i) = presets s)
   \<and> localStorage (handleDeletePreset s i) ''theorygen_presets''
       = Some (presets (handleDeletePreset s i))
   \<and> (app_data s = Some d \<longrightarrow>
        presets (handleSavePreset s t1 t2)
          = \<lparr>preset_id = showInt t1, preset_name = resp_root d @ '' '' @ resp_type d,
              preset_data = d, preset_timestamp = t2\<rparr> # presets s
        \<and> localStorage (handleSavePreset s t1 t2) ''theorygen_presets''
            = Some (presets (handleSavePreset s t1 t2)))"
proof -
  have "filter (\<lambda>p. preset_id p \<noteq> i) (presets s) = presets s"
    if "i \<notin> preset_id ` set (presets s)"
    using that by (induction "presets s") (auto simp: filter_id_conv)
  then show ?thesis
    by (simp add: handleDeletePreset_def handleSavePreset_def Let_def)
qed

theorem presets_delete_and_save_witness:
  "''8'' \<notin> preset_id ` set (presets exampleApp)
   \<and> presets (handleDeletePreset exampleApp ''8'') = presets exampleApp
   \<and> app_data exampleApp = Some exampleResult
   \<and> map preset_id (presets (handleSavePreset exampleApp 9 9)) = [''9'', ''7'']
   \<and> map preset_name (presets (handleSavePreset exampleApp 9 9)) = [''C Major'', ''D Minor'']"
proof -
  have a: "''8'' \<notin> preset_id ` set (presets exampleApp)"
    by (simp add: exampleApp_def)
  have b: "app_data exampleApp = Some exampleResult"
    by (simp add: exampleApp_def)
  show ?thesis
    using a b presets_delete_and_save [of "''8''" exampleApp exampleResult 9 9]
    by (simp add: exampleApp_def exampleResult_def showInt_def showNat_digit digitChar_def)
qed


end
